theory Spec2Isabelle
  imports Main
begin

section \<open>Strings, exceptions and field values\<close>

text \<open>
  A Python \<open>str\<close> is modelled as a \<open>string\<close>, one \<open>char\<close> per code point, so the
  model covers the code points U+0000 to U+00FF. Exceptions are values. The program raises
  \<open>ValueError\<close> with its own literal texts; the interpreter and the \<open>datetime\<close> library
  raise \<open>ValueError\<close> too (tuple unpacking, \<open>strptime\<close>, the \<open>date\<close> constructor), with
  wordings that belong to the interpreter: those are kept symbolic in \<open>lib_error\<close> and
  turned into text by a function the command layer takes as a parameter.
\<close>

datatype lib_error =
    Unpack_expected nat nat
  | Time_data_mismatch string
  | Unconverted_data string
  | Date_out_of_range int int int

datatype exn =
    IndexError
  | KeyError
  | ValueError string
  | ValueError_lib lib_error
  | OverflowError

datatype Field = Field (field_value: string)

definition Field_str :: "Field \<Rightarrow> string" where
  "Field_str f = field_value f"

text \<open>\<open>class Name(Field): pass\<close>: the constructor is \<open>Field.__init__\<close>, which only stores.\<close>

definition Name_init :: "string \<Rightarrow> exn + Field" where
  "Name_init v = Inr (Field v)"

text \<open>
  \<open>str.isdigit\<close>: true when the string is not empty and every character has the Unicode
  property Numeric_Type Digit or Decimal. Up to U+00FF these are the ten ASCII digits and
  the superscripts U+00B2, U+00B3 and U+00B9.
\<close>

definition isdigit_char :: "char \<Rightarrow> bool" where
  "isdigit_char c = (c \<in> set ''0123456789'' \<or> (of_char c :: nat) \<in> {178, 179, 185})"

definition isdigit :: "string \<Rightarrow> bool" where
  "isdigit s = (s \<noteq> [] \<and> list_all isdigit_char s)"

definition Phone_validate :: "string \<Rightarrow> bool" where
  "Phone_validate v = (isdigit v \<and> length v = 10)"

definition Phone_init :: "string \<Rightarrow> exn + Field" where
  "Phone_init v =
     (if \<not> Phone_validate v then Inl (ValueError ''Phone number must be 10 digits.'')
      else Inr (Field v))"

section \<open>Calendar dates\<close>

text \<open>
  \<open>datetime.date\<close>: year, month and day, checked by the constructor, compared as the
  triple, and moved by a number of days through the proleptic Gregorian ordinal.
\<close>

record date =
  year :: int
  month :: int
  day :: int

definition MAXORDINAL :: int where
  "MAXORDINAL = 3652059"

definition DAYS_IN_MONTH :: "int list" where
  "DAYS_IN_MONTH = [-1, 31, 28, 31, 30, 31, 30, 31, 31, 30, 31, 30, 31]"

definition DAYS_BEFORE_MONTH :: "int list" where
  "DAYS_BEFORE_MONTH = [-1, 0, 31, 59, 90, 120, 151, 181, 212, 243, 273, 304, 334]"

definition is_leap :: "int \<Rightarrow> bool" where
  "is_leap y = (y mod 4 = 0 \<and> (y mod 100 \<noteq> 0 \<or> y mod 400 = 0))"

definition days_before_year :: "int \<Rightarrow> int" where
  "days_before_year y = (let y1 = y - 1 in y1 * 365 + y1 div 4 - y1 div 100 + y1 div 400)"

definition days_in_month :: "int \<Rightarrow> int \<Rightarrow> int" where
  "days_in_month y m = (if m = 2 \<and> is_leap y then 29 else DAYS_IN_MONTH ! nat m)"

definition days_before_month :: "int \<Rightarrow> int \<Rightarrow> int" where
  "days_before_month y m = DAYS_BEFORE_MONTH ! nat m + (if m > 2 \<and> is_leap y then 1 else 0)"

definition ymd2ord :: "int \<Rightarrow> int \<Rightarrow> int \<Rightarrow> int" where
  "ymd2ord y m d = days_before_year y + days_before_month y m + d"

definition ord2ymd :: "int \<Rightarrow> date" where
  "ord2ymd n0 =
     (let n = n0 - 1;
          n400 = n div 146097; n = n mod 146097;
          y = n400 * 400 + 1;
          n100 = n div 36524; n = n mod 36524;
          n4 = n div 1461; n = n mod 1461;
          n1 = n div 365; n = n mod 365;
          y = y + n100 * 100 + n4 * 4 + n1
      in if n1 = 4 \<or> n100 = 4 then \<lparr>year = y - 1, month = 12, day = 31\<rparr>
         else
           let leapyear = (n1 = 3 \<and> (n4 \<noteq> 24 \<or> n100 = 3));
               m = (n + 50) div 32;
               preceding = DAYS_BEFORE_MONTH ! nat m + (if m > 2 \<and> leapyear then 1 else 0)
           in if preceding > n
              then let m1 = m - 1;
                       preceding1 = preceding
                          - (DAYS_IN_MONTH ! nat m1 + (if m1 = 2 \<and> leapyear then 1 else 0))
                   in \<lparr>year = y, month = m1, day = n - preceding1 + 1\<rparr>
              else \<lparr>year = y, month = m, day = n - preceding + 1\<rparr>)"

definition check_date_fields :: "int \<Rightarrow> int \<Rightarrow> int \<Rightarrow> bool" where
  "check_date_fields y m d =
     (if \<not> (1 \<le> y \<and> y \<le> 9999) then False
      else if \<not> (1 \<le> m \<and> m \<le> 12) then False
      else 1 \<le> d \<and> d \<le> days_in_month y m)"

definition date_new :: "int \<Rightarrow> int \<Rightarrow> int \<Rightarrow> exn + date" where
  "date_new y m d =
     (if check_date_fields y m d then Inr \<lparr>year = y, month = m, day = d\<rparr>
      else Inl (ValueError_lib (Date_out_of_range y m d)))"

definition date_replace_year :: "date \<Rightarrow> int \<Rightarrow> exn + date" where
  "date_replace_year dt y = date_new y (month dt) (day dt)"

definition toordinal :: "date \<Rightarrow> int" where
  "toordinal dt = ymd2ord (year dt) (month dt) (day dt)"

definition date_le :: "date \<Rightarrow> date \<Rightarrow> bool" where
  "date_le a b =
     (year a < year b \<or> (year a = year b \<and>
        (month a < month b \<or> (month a = month b \<and> day a \<le> day b))))"

definition date_add_days :: "date \<Rightarrow> int \<Rightarrow> exn + date" where
  "date_add_days dt days =
     (let o1 = toordinal dt + days
      in if 0 < o1 \<and> o1 \<le> MAXORDINAL then Inr (ord2ymd o1) else Inl OverflowError)"

section \<open>Parsing a date with the format \<open>%d.%m.%Y\<close>\<close>

text \<open>
  \<open>strptime\<close> compiles the format into the regular expression
  \<^verbatim>\<open>(?P<d>3[0-1]|[1-2]\d|0[1-9]|[1-9]| [1-9])\.(?P<m>1[0-2]|0[1-9]|[1-9])\.(?P<Y>\d\d\d\d)\<close>
  and matches it at the start of the text. Each piece below returns every way it matches a
  prefix, in the order the backtracking matcher tries them, with the rest of the text; the
  match the library sees is the first element of \<open>format_regex_match\<close>. The class
  \<^verbatim>\<open>\d\<close> holds every Unicode decimal digit; up to U+00FF, the code points of the model,
  these are the ten ASCII digits.
\<close>

definition re_one :: "string \<Rightarrow> string \<Rightarrow> (string \<times> string) list" where
  "re_one cls s = (case s of a # r \<Rightarrow> if a \<in> set cls then [([a], r)] else [] | _ \<Rightarrow> [])"

definition re_two :: "string \<Rightarrow> string \<Rightarrow> string \<Rightarrow> (string \<times> string) list" where
  "re_two cls1 cls2 s =
     (case s of a # b # r \<Rightarrow> if a \<in> set cls1 \<and> b \<in> set cls2 then [([a, b], r)] else []
      | _ \<Rightarrow> [])"

definition re_dot :: "string \<Rightarrow> string list" where
  "re_dot s = (case s of a # r \<Rightarrow> if a = CHR ''.'' then [r] else [] | _ \<Rightarrow> [])"

definition group_d :: "string \<Rightarrow> (string \<times> string) list" where
  "group_d s =
     re_two ''3'' ''01'' s @ re_two ''12'' ''0123456789'' s @ re_two ''0'' ''123456789'' s
       @ re_one ''123456789'' s @ re_two '' '' ''123456789'' s"

definition group_m :: "string \<Rightarrow> (string \<times> string) list" where
  "group_m s = re_two ''1'' ''012'' s @ re_two ''0'' ''123456789'' s @ re_one ''123456789'' s"

definition group_Y :: "string \<Rightarrow> (string \<times> string) list" where
  "group_Y s =
     (case s of a # b # c # d # r \<Rightarrow>
        if list_all (\<lambda>x. x \<in> set ''0123456789'') [a, b, c, d] then [([a, b, c, d], r)] else []
      | _ \<Rightarrow> [])"

definition format_regex_match :: "string \<Rightarrow> (string \<times> string \<times> string \<times> string) list" where
  "format_regex_match s =
     [(d, m, y, r5). (d, r1) \<leftarrow> group_d s, r2 \<leftarrow> re_dot r1, (m, r3) \<leftarrow> group_m r2,
                     r4 \<leftarrow> re_dot r3, (y, r5) \<leftarrow> group_Y r4]"

text \<open>\<open>int(text)\<close> on the text of a group: leading blanks are skipped, then decimal digits.\<close>

definition py_int :: "string \<Rightarrow> int" where
  "py_int s =
     foldl (\<lambda>a c. 10 * a + (int (of_char c) - 48)) 0 (dropWhile (\<lambda>c. c = CHR '' '') s)"

definition strptime :: "string \<Rightarrow> exn + date" where
  "strptime data_string =
     (case format_regex_match data_string of
        [] \<Rightarrow> Inl (ValueError_lib (Time_data_mismatch data_string))
      | (d, m, y, rest) # _ \<Rightarrow>
          if rest \<noteq> [] then Inl (ValueError_lib (Unconverted_data rest))
          else date_new (py_int y) (py_int m) (py_int d))"

definition validate_date :: "string \<Rightarrow> bool" where
  "validate_date v = (case strptime v of Inr _ \<Rightarrow> True | Inl _ \<Rightarrow> False)"

definition string_to_date :: "string \<Rightarrow> exn + date" where
  "string_to_date date_string = strptime date_string"

definition Birthday_init :: "string \<Rightarrow> exn + Field" where
  "Birthday_init v =
     (if \<not> validate_date v then Inl (ValueError ''Invalid date format. Use DD.MM.YYYY'')
      else Inr (Field v))"

section \<open>Records and the address book\<close>

record Record =
  name :: Field
  phone :: "Field option"
  birthday :: "Field option"

definition Record_init :: "string \<Rightarrow> exn + Record" where
  "Record_init nm =
     (case Name_init nm of Inl e \<Rightarrow> Inl e
      | Inr n \<Rightarrow> Inr \<lparr>name = n, phone = None, birthday = None\<rparr>)"

definition Record_add_phone :: "Record \<Rightarrow> string \<Rightarrow> exn + Record" where
  "Record_add_phone r p =
     (case Phone_init p of Inl e \<Rightarrow> Inl e | Inr ph \<Rightarrow> Inr (r\<lparr>phone := Some ph\<rparr>))"

definition Record_add_birthday :: "Record \<Rightarrow> string \<Rightarrow> exn + Record" where
  "Record_add_birthday r b =
     (case Birthday_init b of Inl e \<Rightarrow> Inl e | Inr bd \<Rightarrow> Inr (r\<lparr>birthday := Some bd\<rparr>))"

definition Record_edit_phone :: "Record \<Rightarrow> string \<Rightarrow> exn + Record" where
  "Record_edit_phone r new_phone =
     (case Phone_init new_phone of Inl e \<Rightarrow> Inl e | Inr ph \<Rightarrow> Inr (r\<lparr>phone := Some ph\<rparr>))"

text \<open>Formatting an attribute that may be \<open>None\<close>: \<open>None\<close> prints as the text None.\<close>

definition str_opt :: "Field option \<Rightarrow> string" where
  "str_opt f = (case f of None \<Rightarrow> ''None'' | Some x \<Rightarrow> Field_str x)"

definition Record_str :: "Record \<Rightarrow> string" where
  "Record_str r =
     (let birthday_str = (case birthday r of Some b \<Rightarrow> field_value b | None \<Rightarrow> ''N/A'')
      in ''Contact name: '' @ field_value (name r) @ '', phone '' @ str_opt (phone r)
           @ '', birthday: '' @ birthday_str)"

text \<open>
  The book is the \<open>data\<close> dictionary of the \<open>UserDict\<close>: the entries in insertion order.
  Assigning to a key that is present replaces the value where it stands; a new key goes to
  the end. A record is an object the book refers to: a command that finds a record under a
  key and changes one of its attributes changes what the book holds under that key, which
  the model writes as \<open>dict_set\<close> of the changed record under the same key.
\<close>

type_synonym AddressBook = "(string \<times> Record) list"

fun dict_set :: "string \<Rightarrow> Record \<Rightarrow> AddressBook \<Rightarrow> AddressBook" where
  "dict_set k v [] = [(k, v)]"
| "dict_set k v (p # ps) = (if fst p = k then (k, v) # ps else p # dict_set k v ps)"

definition add_record :: "Record \<Rightarrow> AddressBook \<Rightarrow> AddressBook" where
  "add_record record bk = dict_set (field_value (name record)) record bk"

definition find :: "AddressBook \<Rightarrow> string \<Rightarrow> Record option" where
  "find bk nm = map_of bk nm"

definition dict_values :: "AddressBook \<Rightarrow> Record list" where
  "dict_values bk = map snd bk"

text \<open>
  The loop of \<open>get_upcoming_birthdays\<close> over the records, with the list built so far.
  \<open>today <= this_year_bday <= today + timedelta(days=days)\<close> is a chained comparison: the
  sum is only computed when the first comparison holds.
\<close>

fun upcoming_loop :: "date \<Rightarrow> int \<Rightarrow> Record list \<Rightarrow> Record list \<Rightarrow> exn + Record list" where
  "upcoming_loop today days [] upcoming_birthdays = Inr upcoming_birthdays"
| "upcoming_loop today days (record # rest) upcoming_birthdays =
     (case birthday record of
        None \<Rightarrow> upcoming_loop today days rest upcoming_birthdays
      | Some b \<Rightarrow>
          (case string_to_date (field_value b) of
             Inl e \<Rightarrow> Inl e
           | Inr bday_date \<Rightarrow>
               (case date_replace_year bday_date (year today) of
                  Inl e \<Rightarrow> Inl e
                | Inr this_year_bday \<Rightarrow>
                    if date_le today this_year_bday then
                      (case date_add_days today days of
                         Inl e \<Rightarrow> Inl e
                       | Inr limit \<Rightarrow>
                           if date_le this_year_bday limit
                           then upcoming_loop today days rest (upcoming_birthdays @ [record])
                           else upcoming_loop today days rest upcoming_birthdays)
                    else upcoming_loop today days rest upcoming_birthdays)))"

text \<open>\<open>date.today()\<close> is read from the clock; the model takes it as the argument \<open>today\<close>.\<close>

definition get_upcoming_birthdays :: "date \<Rightarrow> int \<Rightarrow> AddressBook \<Rightarrow> exn + Record list" where
  "get_upcoming_birthdays today days bk = upcoming_loop today days (dict_values bk) []"

section \<open>Persistence and the commands\<close>

text \<open>
  The state a command works on: the book in memory and the pickled copy on disk
  (\<open>None\<close> while the file does not exist). Writing the file is taken to succeed.
\<close>

record World =
  book :: AddressBook
  pickled :: "AddressBook option"

definition save_address_book :: "World \<Rightarrow> World" where
  "save_address_book w = w\<lparr>pickled := Some (book w)\<rparr>"

fun join :: "string \<Rightarrow> string list \<Rightarrow> string" where
  "join sep [] = []"
| "join sep [x] = x"
| "join sep (x # y # ys) = x @ sep @ join sep (y # ys)"

datatype Command =
  AddContact | ChangePhone | GetPhone | ShowAll | AddBirthday | ShowBirthday | ShowBirthdays

text \<open>
  The body of each \<open>execute\<close>, before the decorator: the exception raised or the text
  returned, and the state left behind. What a body changed before it raised stays changed.
\<close>

fun AddContact_execute :: "string list \<Rightarrow> World \<Rightarrow> (exn + string) \<times> World" where
  "AddContact_execute (nm # ph # _) w =
     (case (case find (book w) nm of
              None \<Rightarrow>
                (case Record_init nm of
                   Inl e \<Rightarrow> Inl e
                 | Inr record \<Rightarrow>
                     Inr (record, ''Contact added.'', w\<lparr>book := add_record record (book w)\<rparr>))
            | Some record \<Rightarrow> Inr (record, ''Contact updated.'', w)) of
        Inl e \<Rightarrow> (Inl e, w)
      | Inr (record, message, w1) \<Rightarrow>
          if ph \<noteq> [] then
            (case Record_add_phone record ph of
               Inl e \<Rightarrow> (Inl e, w1)
             | Inr record' \<Rightarrow>
                 (Inr message, save_address_book (w1\<lparr>book := dict_set nm record' (book w1)\<rparr>)))
          else (Inr message, save_address_book w1))"
| "AddContact_execute _ w = (Inl (ValueError ''Maybe you forgot enter name or phone?''), w)"

definition ChangePhone_execute :: "string list \<Rightarrow> World \<Rightarrow> (exn + string) \<times> World" where
  "ChangePhone_execute args w =
     (if length args < 1
      then (Inl (ValueError (''You did not enter the subscriber'' @ [CHR 0x27] @ ''s name!'')), w)
      else if length args < 2 then (Inl (ValueError ''You did not enter a new phone number!''), w)
      else (case args of
              [nm, new_phone] \<Rightarrow>
                (case find (book w) nm of
                   None \<Rightarrow> (Inl KeyError, w)
                 | Some record \<Rightarrow>
                     if \<not> Phone_validate new_phone
                     then (Inl (ValueError ''Phone number must be 10 digits.''), w)
                     else (case Record_edit_phone record new_phone of
                             Inl e \<Rightarrow> (Inl e, w)
                           | Inr record' \<Rightarrow>
                               (Inr ''Phone number updated.'',
                                save_address_book (w\<lparr>book := dict_set nm record' (book w)\<rparr>))))
            | _ \<Rightarrow> (Inl (ValueError_lib (Unpack_expected 2 (length args))), w)))"

definition GetPhone_execute :: "string list \<Rightarrow> World \<Rightarrow> (exn + string) \<times> World" where
  "GetPhone_execute args w =
     (case args of
        [] \<Rightarrow> (Inl IndexError, w)
      | nm # _ \<Rightarrow>
          (case find (book w) nm of
             None \<Rightarrow> (Inl KeyError, w)
           | Some record \<Rightarrow> (Inr (nm @ '': '' @ str_opt (phone record)), w)))"

definition ShowAll_execute :: "string list \<Rightarrow> World \<Rightarrow> (exn + string) \<times> World" where
  "ShowAll_execute args w = (Inr (join [CHR 0x0A] (map Record_str (dict_values (book w)))), w)"

definition AddBirthday_execute :: "string list \<Rightarrow> World \<Rightarrow> (exn + string) \<times> World" where
  "AddBirthday_execute args w =
     (case args of
        [nm, bday] \<Rightarrow>
          (case find (book w) nm of
             None \<Rightarrow> (Inl KeyError, w)
           | Some record \<Rightarrow>
               (case Record_add_birthday record bday of
                  Inl e \<Rightarrow> (Inl e, w)
                | Inr record' \<Rightarrow>
                    (Inr ''Birthday added.'',
                     save_address_book (w\<lparr>book := dict_set nm record' (book w)\<rparr>))))
      | _ \<Rightarrow> (Inl (ValueError_lib (Unpack_expected 2 (length args))), w))"

definition ShowBirthday_execute :: "string list \<Rightarrow> World \<Rightarrow> (exn + string) \<times> World" where
  "ShowBirthday_execute args w =
     (case args of
        [] \<Rightarrow> (Inl IndexError, w)
      | nm # _ \<Rightarrow>
          (case find (book w) nm of
             None \<Rightarrow> (Inl KeyError, w)
           | Some record \<Rightarrow>
               (Inr (nm @ '': ''
                      @ (case birthday record of Some b \<Rightarrow> field_value b | None \<Rightarrow> ''N/A'')), w)))"

definition ShowBirthdays_execute :: "date \<Rightarrow> string list \<Rightarrow> World \<Rightarrow> (exn + string) \<times> World" where
  "ShowBirthdays_execute today args w =
     (case get_upcoming_birthdays today 7 (book w) of
        Inl e \<Rightarrow> (Inl e, w)
      | Inr upcoming_birthdays \<Rightarrow>
          if upcoming_birthdays = [] then (Inl (ValueError ''No birthdays in the next week!''), w)
          else (Inr (join [CHR 0x0A] (map Record_str upcoming_birthdays)), w))"

fun execute_body :: "Command \<Rightarrow> date \<Rightarrow> string list \<Rightarrow> World \<Rightarrow> (exn + string) \<times> World" where
  "execute_body AddContact today args w = AddContact_execute args w"
| "execute_body ChangePhone today args w = ChangePhone_execute args w"
| "execute_body GetPhone today args w = GetPhone_execute args w"
| "execute_body ShowAll today args w = ShowAll_execute args w"
| "execute_body AddBirthday today args w = AddBirthday_execute args w"
| "execute_body ShowBirthday today args w = ShowBirthday_execute args w"
| "execute_body ShowBirthdays today args w = ShowBirthdays_execute today args w"

text \<open>
  The decorator \<open>input_error\<close>: \<open>IndexError\<close>, \<open>KeyError\<close> and \<open>ValueError\<close> become texts,
  any other exception passes through to the caller (\<open>Inl\<close>). \<open>str_lib\<close> is the text the
  interpreter gives to its own \<open>ValueError\<close>s.
\<close>

fun input_error :: "(lib_error \<Rightarrow> string) \<Rightarrow> exn + string \<Rightarrow> exn + string" where
  "input_error str_lib (Inr outcome) = Inr outcome"
| "input_error str_lib (Inl IndexError) =
     Inr (''You haven'' @ [CHR 0x27] @ ''t entered a contact name or phone!'')"
| "input_error str_lib (Inl KeyError) = Inr ''Contact is not found!''"
| "input_error str_lib (Inl (ValueError text)) = Inr text"
| "input_error str_lib (Inl (ValueError_lib e)) = Inr (str_lib e)"
| "input_error str_lib (Inl OverflowError) = Inl OverflowError"

definition execute ::
  "(lib_error \<Rightarrow> string) \<Rightarrow> Command \<Rightarrow> date \<Rightarrow> string list \<Rightarrow> World \<Rightarrow> (exn + string) \<times> World" where
  "execute str_lib cmd today args w =
     (case execute_body cmd today args w of (res, w') \<Rightarrow> (input_error str_lib res, w'))"

text \<open>
  The condition of the specification on one record, for comparison with the loop: the
  record has a birthday, and the birthday moved to today's year lies between today and
  today + days, both ends included.
\<close>

definition in_window :: "date \<Rightarrow> int \<Rightarrow> Record \<Rightarrow> bool" where
  "in_window today days r =
     (case birthday r of
        None \<Rightarrow> False
      | Some b \<Rightarrow>
          (case string_to_date (field_value b) of
             Inl _ \<Rightarrow> False
           | Inr bd \<Rightarrow>
               (case date_replace_year bd (year today) of
                  Inl _ \<Rightarrow> False
                | Inr anchored \<Rightarrow>
                    date_le today anchored
                    \<and> (case date_add_days today days of
                          Inl _ \<Rightarrow> False
                        | Inr limit \<Rightarrow> date_le anchored limit))))"

text \<open>
  The texts a day and a month can be written with, stated apart from the parser and for
  comparison with it: a day is 01 to 31 with two digits, or one digit 1 to 9, alone or
  after a blank; a month is 01 to 12 with two digits, or one digit 1 to 9.
\<close>

definition digit_char :: "nat \<Rightarrow> char" where
  "digit_char k = char_of (48 + k)"

definition two_digits :: "nat \<Rightarrow> string" where
  "two_digits n = [digit_char (n div 10), digit_char (n mod 10)]"

definition day_texts :: "string list" where
  "day_texts =
     map two_digits [1..<32] @ map (\<lambda>n. [digit_char n]) [1..<10]
       @ map (\<lambda>n. [CHR '' '', digit_char n]) [1..<10]"

definition month_texts :: "string list" where
  "month_texts = map two_digits [1..<13] @ map (\<lambda>n. [digit_char n]) [1..<10]"

section \<open>Value types\<close>

text \<open>
  Claim C7 says that constructing a Name from an empty string fails. The class has no
  constructor of its own and no check: the empty string is stored like any other.
\<close>

theorem Name_init_empty_counterexample: "Name_init [] = Inr (Field [])"
  by (simp add: Name_init_def)

text \<open>
  Claim C7, amended: constructing a Name succeeds for every string, the empty one
  included, and the name's text is the string given.
\<close>

theorem Name_init_accepts_any: "\<exists>n. Name_init s = Inr n \<and> Field_str n = s"
  by (simp add: Name_init_def Field_str_def)

lemma isdigit_char_iff:
  "isdigit_char c \<longleftrightarrow> c \<in> set ''0123456789'' \<or> c \<in> {CHR 0xB2, CHR 0xB3, CHR 0xB9}"
proof -
  have a: "(of_char c :: nat) = 178 \<longleftrightarrow> c = CHR 0xB2"
    using of_char_eq_iff [of c "CHR 0xB2", where ?'a = nat] by simp
  have b: "(of_char c :: nat) = 179 \<longleftrightarrow> c = CHR 0xB3"
    using of_char_eq_iff [of c "CHR 0xB3", where ?'a = nat] by simp
  have d: "(of_char c :: nat) = 185 \<longleftrightarrow> c = CHR 0xB9"
    using of_char_eq_iff [of c "CHR 0xB9", where ?'a = nat] by simp
  show ?thesis unfolding isdigit_char_def by (simp only: insert_iff empty_iff a b d)
qed

text \<open>
  Claim C2 says that a phone number is accepted only if it is ten ASCII digits and that a
  non-ASCII character is rejected. \<open>str.isdigit\<close> also holds for the superscript digits:
  ten times U+00B2 is accepted.
\<close>

theorem Phone_init_superscript_counterexample:
  "Phone_init [CHR 0xB2, CHR 0xB2, CHR 0xB2, CHR 0xB2, CHR 0xB2,
               CHR 0xB2, CHR 0xB2, CHR 0xB2, CHR 0xB2, CHR 0xB2]
     = Inr (Field [CHR 0xB2, CHR 0xB2, CHR 0xB2, CHR 0xB2, CHR 0xB2,
                   CHR 0xB2, CHR 0xB2, CHR 0xB2, CHR 0xB2, CHR 0xB2])
   \<and> CHR 0xB2 \<notin> set ''0123456789''"
  by (simp add: Phone_init_def Phone_validate_def isdigit_def isdigit_char_def)

text \<open>
  Claim C2, amended: a phone number is accepted if and only if it has exactly ten
  characters, each an ASCII digit or one of the superscript digits U+00B2, U+00B3, U+00B9
  (the characters up to U+00FF that \<open>str.isdigit\<close> takes for digits); every other string,
  so any with a letter, punctuation or another length, is rejected with the ValueError
  "Phone number must be 10 digits.".
\<close>

theorem Phone_init_accepts:
  "Phone_init s =
     (if length s = 10
         \<and> (\<forall>c\<in>set s. c \<in> set ''0123456789'' \<or> c \<in> {CHR 0xB2, CHR 0xB3, CHR 0xB9})
      then Inr (Field s) else Inl (ValueError ''Phone number must be 10 digits.''))"
proof -
  have "isdigit s \<and> length s = 10 \<longleftrightarrow>
        length s = 10
        \<and> (\<forall>c\<in>set s. c \<in> set ''0123456789'' \<or> c \<in> {CHR 0xB2, CHR 0xB3, CHR 0xB9})"
  proof (cases "s = []")
    case True
    then show ?thesis by simp
  next
    case False
    have e: "Ball (set s) isdigit_char
        = (\<forall>c\<in>set s. c \<in> set ''0123456789'' \<or> c \<in> {CHR 0xB2, CHR 0xB3, CHR 0xB9})"
      by (rule ball_cong [OF refl]) (rule isdigit_char_iff)
    have "isdigit s = Ball (set s) isdigit_char"
      using False by (simp only: isdigit_def list_all_iff simp_thms)
    then show ?thesis by (simp only: e conj_commute)
  qed
  then show ?thesis unfolding Phone_init_def Phone_validate_def by simp
qed

theorem Phone_init_accepts_witness:
  "Phone_init ''0123456789'' = Inr (Field ''0123456789'')
   \<and> Phone_init ''01234x6789'' = Inl (ValueError ''Phone number must be 10 digits.'')
   \<and> Phone_init ''012345678'' = Inl (ValueError ''Phone number must be 10 digits.'')"
  using Phone_init_accepts [of "''0123456789''"] Phone_init_accepts [of "''01234x6789''"]
    Phone_init_accepts [of "''012345678''"]
  by simp

section \<open>Commands\<close>

text \<open>
  Claim C1 says that a command that fails leaves the book unchanged, and that Add Contact
  with a new name and an invalid phone leaves no record for the name. Add Contact stores
  the new record before it builds the phone: with the empty book, the name Bob and the
  phone 123 it answers "Phone number must be 10 digits." and the book holds a record for
  Bob with no phone; nothing is written to disk.
\<close>

theorem AddContact_invalid_phone_adds_record:
  "execute str_lib AddContact today [''Bob'', ''123''] \<lparr>book = [], pickled = None\<rparr>
     = (Inr ''Phone number must be 10 digits.'',
        \<lparr>book = [(''Bob'', \<lparr>name = Field ''Bob'', phone = None, birthday = None\<rparr>)],
         pickled = None\<rparr>)"
  by (simp add: execute_def find_def Record_init_def Name_init_def add_record_def
        Record_add_phone_def Phone_init_def Phone_validate_def)

text \<open>
  Every other way a command raises leaves the state as it was: the only body that has
  changed the book when it raises is Add Contact on a name the book does not have, with
  a phone that is not valid.
\<close>

lemma AddContact_failure:
  assumes "fst (AddContact_execute args w) = Inl e"
  shows "snd (AddContact_execute args w) = w
         \<or> (\<exists>nm ph rest. args = nm # ph # rest \<and> find (book w) nm = None
               \<and> \<not> Phone_validate ph)"
proof -
  consider "args = []" | a where "args = [a]" | nm ph rest where "args = nm # ph # rest"
    by (cases args rule: list.exhaust; cases "tl args"; auto)
  then show ?thesis
  proof cases
    case 3
    show ?thesis
    proof (cases "find (book w) nm")
      case (Some r)
      show ?thesis
      proof (cases "ph \<noteq> [] \<and> (\<exists>e'. Record_add_phone r ph = Inl e')")
        case True
        with 3 Some show ?thesis by auto
      next
        case False
        then have "ph = [] \<or> (\<exists>r'. Record_add_phone r ph = Inr r')"
          by (cases "Record_add_phone r ph") auto
        with 3 Some assms show ?thesis by auto
      qed
    next
      case None
      show ?thesis
      proof (cases "Phone_validate ph")
        case False
        with 3 None show ?thesis by simp
      next
        case True
        then have "ph \<noteq> []" by (auto simp: Phone_validate_def isdigit_def)
        with True 3 None assms show ?thesis
          by (simp add: Record_init_def Name_init_def Record_add_phone_def Phone_init_def)
      qed
    qed
  qed simp_all
qed

lemma ChangePhone_failure:
  "fst (ChangePhone_execute args w) = Inl e \<Longrightarrow> snd (ChangePhone_execute args w) = w"
  by (simp add: ChangePhone_execute_def Record_edit_phone_def Phone_init_def
      split: list.splits option.splits if_splits)

lemma AddBirthday_failure:
  "fst (AddBirthday_execute args w) = Inl e \<Longrightarrow> snd (AddBirthday_execute args w) = w"
  by (simp add: AddBirthday_execute_def Record_add_birthday_def Birthday_init_def
      split: list.splits option.splits if_splits)

lemma queries_body_leave_world:
  "snd (GetPhone_execute args w) = w" "snd (ShowAll_execute args w) = w"
  "snd (ShowBirthday_execute args w) = w" "snd (ShowBirthdays_execute today args w) = w"
  by (simp_all add: GetPhone_execute_def ShowAll_execute_def ShowBirthday_execute_def
      ShowBirthdays_execute_def split: list.split option.split sum.split)

lemma failure_leaves_world:
  assumes "fst (execute_body cmd today args w) = Inl e"
  shows "snd (execute_body cmd today args w) = w
         \<or> (cmd = AddContact
             \<and> (\<exists>nm ph rest. args = nm # ph # rest \<and> find (book w) nm = None
                   \<and> \<not> Phone_validate ph))"
proof (cases cmd)
  case AddContact
  with assms AddContact_failure [of args w e] show ?thesis by simp
next
  case ChangePhone
  with assms ChangePhone_failure [of args w e] show ?thesis by simp
next
  case AddBirthday
  with assms AddBirthday_failure [of args w e] show ?thesis by simp
qed (simp_all add: queries_body_leave_world)

text \<open>
  Claim C9: Get Phone, Show All, Show Birthday and Show Birthdays leave the state as it
  was, the book with every record and the file on disk, whatever the arguments and
  whether they answer with a result or with an error text.
\<close>

theorem queries_leave_world:
  "snd (execute str_lib GetPhone today args w) = w
   \<and> snd (execute str_lib ShowAll today args w) = w
   \<and> snd (execute str_lib ShowBirthday today args w) = w
   \<and> snd (execute str_lib ShowBirthdays today args w) = w"
  by (simp add: execute_def GetPhone_execute_def ShowAll_execute_def ShowBirthday_execute_def
        ShowBirthdays_execute_def split: list.split option.split sum.split prod.split)

text \<open>
  Claim C10: when the book has a record under the name \<open>n\<close> and the record's phone is
  unset, Get Phone on \<open>n\<close> answers with the text \<open>n: None\<close>, not with an error, and
  changes nothing.
\<close>

theorem GetPhone_unset_phone:
  assumes "find (book w) n = Some r" and "phone r = None"
  shows "execute str_lib GetPhone today (n # rest) w = (Inr (n @ '': None''), w)"
  using assms by (simp add: execute_def GetPhone_execute_def str_opt_def)

theorem GetPhone_unset_phone_witness:
  "find (book \<lparr>book = [(''Ann'', \<lparr>name = Field ''Ann'', phone = None, birthday = None\<rparr>)],
               pickled = None\<rparr>) ''Ann''
      = Some \<lparr>name = Field ''Ann'', phone = None, birthday = None\<rparr>
   \<and> phone \<lparr>name = Field ''Ann'', phone = None, birthday = None\<rparr> = None
   \<and> execute (\<lambda>e. []) GetPhone \<lparr>year = 2024, month = 6, day = 10\<rparr> [''Ann'']
        \<lparr>book = [(''Ann'', \<lparr>name = Field ''Ann'', phone = None, birthday = None\<rparr>)],
         pickled = None\<rparr>
      = (Inr ''Ann: None'',
         \<lparr>book = [(''Ann'', \<lparr>name = Field ''Ann'', phone = None, birthday = None\<rparr>)],
          pickled = None\<rparr>)"
proof -
  let ?r = "\<lparr>name = Field ''Ann'', phone = None, birthday = None\<rparr>"
  let ?w = "\<lparr>book = [(''Ann'', ?r)], pickled = None\<rparr>"
  have f: "find (book ?w) ''Ann'' = Some ?r" by (simp add: find_def)
  have p: "phone ?r = None" by simp
  from GetPhone_unset_phone [OF f p, of "\<lambda>e. []" "\<lparr>year = 2024, month = 6, day = 10\<rparr>" "[]"] f p
  show ?thesis by simp
qed

section \<open>Add Contact on a name the book has\<close>

lemma map_of_dict_set: "map_of (dict_set k v bk) = (map_of bk)(k \<mapsto> v)"
  by (induction bk) (auto simp: fun_eq_iff)

lemma one_entry:
  "distinct (map fst bk) \<Longrightarrow> k \<in> set (map fst bk) \<Longrightarrow> length (filter (\<lambda>p. fst p = k) bk) = 1"
proof (induction bk)
  case Nil
  then show ?case by simp
next
  case (Cons p ps)
  show ?case
  proof (cases "fst p = k")
    case True
    with Cons.prems have "k \<notin> fst ` set ps" by auto
    then have "filter (\<lambda>q. fst q = k) ps = []" by (auto simp: filter_empty_conv)
    with True show ?thesis by simp
  next
    case False
    with Cons show ?thesis by auto
  qed
qed

lemma count_dict_set:
  "map_of bk k = Some r \<Longrightarrow>
   length (filter (\<lambda>p. fst p = k) (dict_set k v bk)) = length (filter (\<lambda>p. fst p = k) bk)"
  by (induction bk) (auto split: if_splits)

text \<open>
  Claim C8: when the book (a dictionary, so with one entry for each key) has a record
  under the name \<open>n\<close> with a birthday set, Add Contact with \<open>n\<close> and a valid phone
  answers "Contact updated.", the record under \<open>n\<close> keeps its birthday and its name and
  has the new phone, the book still has exactly one entry for \<open>n\<close>, and the records under
  the other names are as before.
\<close>

theorem AddContact_existing_keeps_birthday:
  assumes dist: "distinct (map fst (book w))"
    and found: "find (book w) n = Some r"
    and bday: "birthday r = Some b"
    and valid: "Phone_validate ph"
  shows "\<exists>w' r'. execute str_lib AddContact today (n # ph # rest) w = (Inr ''Contact updated.'', w')
           \<and> find (book w') n = Some r'
           \<and> birthday r' = Some b \<and> name r' = name r \<and> phone r' = Some (Field ph)
           \<and> length (filter (\<lambda>p. fst p = n) (book w')) = 1
           \<and> (\<forall>k. k \<noteq> n \<longrightarrow> find (book w') k = find (book w) k)"
proof -
  let ?r' = "r\<lparr>phone := Some (Field ph)\<rparr>"
  let ?w' = "save_address_book (w\<lparr>book := dict_set n ?r' (book w)\<rparr>)"
  from valid have ne: "ph \<noteq> []" by (auto simp: Phone_validate_def isdigit_def)
  from valid have add: "Record_add_phone r ph = Inr ?r'"
    by (simp add: Record_add_phone_def Phone_init_def)
  have ex: "execute str_lib AddContact today (n # ph # rest) w = (Inr ''Contact updated.'', ?w')"
    using found ne add by (simp add: execute_def)
  have bk: "book ?w' = dict_set n ?r' (book w)" by (simp add: save_address_book_def)
  from found have mo: "map_of (book w) n = Some r" by (simp add: find_def)
  then have "n \<in> set (map fst (book w))" by (metis map_of_eq_None_iff option.distinct(1) set_map)
  with dist have "length (filter (\<lambda>p. fst p = n) (book w)) = 1" by (rule one_entry)
  with mo have one: "length (filter (\<lambda>p. fst p = n) (book ?w')) = 1"
    by (simp add: bk count_dict_set)
  have f: "find (book ?w') n = Some ?r'" by (simp add: bk find_def map_of_dict_set)
  have other: "\<forall>k. k \<noteq> n \<longrightarrow> find (book ?w') k = find (book w) k"
    by (simp add: bk find_def map_of_dict_set)
  from ex f one other bday show ?thesis by auto
qed

theorem AddContact_existing_keeps_birthday_witness:
  "distinct (map fst (book \<lparr>book = [(''Ann'', \<lparr>name = Field ''Ann'',
        phone = Some (Field ''0123456789''), birthday = Some (Field ''12.06.1990'')\<rparr>)],
        pickled = None\<rparr>))
   \<and> find (book \<lparr>book = [(''Ann'', \<lparr>name = Field ''Ann'',
        phone = Some (Field ''0123456789''), birthday = Some (Field ''12.06.1990'')\<rparr>)],
        pickled = None\<rparr>) ''Ann''
       = Some \<lparr>name = Field ''Ann'', phone = Some (Field ''0123456789''),
               birthday = Some (Field ''12.06.1990'')\<rparr>
   \<and> Phone_validate ''9876543210''
   \<and> (\<exists>w' r'. execute (\<lambda>e. []) AddContact \<lparr>year = 2024, month = 6, day = 10\<rparr>
          [''Ann'', ''9876543210'']
          \<lparr>book = [(''Ann'', \<lparr>name = Field ''Ann'', phone = Some (Field ''0123456789''),
              birthday = Some (Field ''12.06.1990'')\<rparr>)], pickled = None\<rparr>
          = (Inr ''Contact updated.'', w')
        \<and> find (book w') ''Ann'' = Some r'
        \<and> birthday r' = Some (Field ''12.06.1990'')
        \<and> phone r' = Some (Field ''9876543210'')
        \<and> length (filter (\<lambda>p. fst p = ''Ann'') (book w')) = 1)"
proof -
  let ?r = "\<lparr>name = Field ''Ann'', phone = Some (Field ''0123456789''),
             birthday = Some (Field ''12.06.1990'')\<rparr>"
  let ?w = "\<lparr>book = [(''Ann'', ?r)], pickled = None\<rparr>"
  have d: "distinct (map fst (book ?w))" by simp
  have f: "find (book ?w) ''Ann'' = Some ?r" by (simp add: find_def)
  have b: "birthday ?r = Some (Field ''12.06.1990'')" by simp
  have v: "Phone_validate ''9876543210''"
    by (simp add: Phone_validate_def isdigit_def isdigit_char_def)
  from AddContact_existing_keeps_birthday [OF d f b v,
      of "\<lambda>e. []" "\<lparr>year = 2024, month = 6, day = 10\<rparr>" "[]"]
  obtain w' r' where
    "execute (\<lambda>e. []) AddContact \<lparr>year = 2024, month = 6, day = 10\<rparr> [''Ann'', ''9876543210''] ?w
       = (Inr ''Contact updated.'', w')"
    "find (book w') ''Ann'' = Some r'" "birthday r' = Some (Field ''12.06.1990'')"
    "phone r' = Some (Field ''9876543210'')"
    "length (filter (\<lambda>p. fst p = ''Ann'') (book w')) = 1"
    by blast
  with d f v show ?thesis by blast
qed

section \<open>No exception leaves a command\<close>

lemma date_new_not_overflow: "date_new y m d \<noteq> Inl OverflowError"
  by (simp add: date_new_def)

lemma strptime_not_overflow: "strptime s \<noteq> Inl OverflowError"
  by (simp add: strptime_def date_new_not_overflow split: list.split prod.split)

lemma upcoming_loop_not_overflow:
  "date_add_days today days \<noteq> Inl OverflowError \<Longrightarrow>
   upcoming_loop today days rs acc \<noteq> Inl OverflowError"
proof (induction rs arbitrary: acc)
  case Nil
  then show ?case by simp
next
  case (Cons r rs)
  show ?case
  proof (cases "birthday r")
    case None
    with Cons show ?thesis by simp
  next
    case (Some b)
    show ?thesis
    proof (cases "string_to_date (field_value b)")
      case (Inl e)
      then have "e \<noteq> OverflowError"
        using strptime_not_overflow [of "field_value b"] by (auto simp: string_to_date_def)
      with Some Inl show ?thesis by simp
    next
      case (Inr bd)
      note parsed = this
      show ?thesis
      proof (cases "date_replace_year bd (year today)")
        case (Inl e)
        then have "e \<noteq> OverflowError"
          using date_new_not_overflow by (auto simp: date_replace_year_def)
        with Some parsed Inl show ?thesis by simp
      next
        case (Inr a)
        show ?thesis
        proof (cases "date_add_days today days")
          case (Inl e)
          with Cons.prems have "e \<noteq> OverflowError" by auto
          with Some parsed Inr Inl Cons.IH Cons.prems show ?thesis by simp
        next
          case lim: (Inr limit)
          with Some parsed Inr Cons.IH Cons.prems show ?thesis by simp
        qed
      qed
    qed
  qed
qed

lemma Phone_init_error: "Phone_init p = Inl e \<Longrightarrow> e \<noteq> OverflowError"
  by (auto simp: Phone_init_def split: if_splits)

lemma Birthday_init_error: "Birthday_init p = Inl e \<Longrightarrow> e \<noteq> OverflowError"
  by (auto simp: Birthday_init_def split: if_splits)

lemma AddContact_not_overflow: "fst (AddContact_execute args w) \<noteq> Inl OverflowError"
proof -
  consider "args = []" | a where "args = [a]" | nm ph rest where "args = nm # ph # rest"
    by (cases args rule: list.exhaust; cases "tl args"; auto)
  then show ?thesis
  proof cases
    case 3
    show ?thesis unfolding 3
      by (auto simp: Record_init_def Name_init_def Record_add_phone_def
          split: option.split sum.split dest: Phone_init_error)
  qed simp_all
qed

lemma ChangePhone_not_overflow: "fst (ChangePhone_execute args w) \<noteq> Inl OverflowError"
  by (auto simp: ChangePhone_execute_def Record_edit_phone_def
      split: list.split option.split sum.split dest: Phone_init_error)

lemma AddBirthday_not_overflow: "fst (AddBirthday_execute args w) \<noteq> Inl OverflowError"
  by (auto simp: AddBirthday_execute_def Record_add_birthday_def
      split: list.split option.split sum.split dest: Birthday_init_error)

lemma ShowBirthdays_not_overflow:
  "date_add_days today 7 \<noteq> Inl OverflowError \<Longrightarrow>
   fst (ShowBirthdays_execute today args w) \<noteq> Inl OverflowError"
  using upcoming_loop_not_overflow [of today 7 "dict_values (book w)" "[]"]
  by (auto simp: ShowBirthdays_execute_def get_upcoming_birthdays_def split: sum.split)

lemma input_error_message: "res \<noteq> Inl OverflowError \<Longrightarrow> \<exists>msg. input_error str_lib res = Inr msg"
  by (cases "(str_lib, res)" rule: input_error.cases) auto

text \<open>
  Claim C6: every command, on every list of arguments and every state, returns a text:
  the missing argument, the missing contact, the rejected value and the empty result are
  all turned into texts by the decorator and no exception reaches the caller. The clock
  is taken to show a day at least seven days before the last day \<open>date\<close> can hold
  (31.12.9999), so that \<open>today + timedelta(days=7)\<close> exists.
\<close>

theorem execute_returns_message:
  assumes "0 < toordinal today + 7" and "toordinal today + 7 \<le> MAXORDINAL"
  shows "\<exists>msg. fst (execute str_lib cmd today args w) = Inr msg"
proof -
  from assms have add: "date_add_days today 7 \<noteq> Inl OverflowError"
    by (simp add: date_add_days_def)
  have "fst (execute_body cmd today args w) \<noteq> Inl OverflowError"
  proof (cases cmd)
    case AddContact
    then show ?thesis by (simp add: AddContact_not_overflow)
  next
    case ChangePhone
    then show ?thesis by (simp add: ChangePhone_not_overflow)
  next
    case GetPhone
    then show ?thesis by (simp add: GetPhone_execute_def split: list.split option.split)
  next
    case ShowAll
    then show ?thesis by (simp add: ShowAll_execute_def)
  next
    case AddBirthday
    then show ?thesis by (simp add: AddBirthday_not_overflow)
  next
    case ShowBirthday
    then show ?thesis by (simp add: ShowBirthday_execute_def split: list.split option.split)
  next
    case ShowBirthdays
    with add show ?thesis by (simp add: ShowBirthdays_not_overflow)
  qed
  then obtain msg where "input_error str_lib (fst (execute_body cmd today args w)) = Inr msg"
    using input_error_message by blast
  then show ?thesis by (auto simp: execute_def split: prod.split)
qed

theorem execute_returns_message_witness:
  "0 < toordinal \<lparr>year = 2024, month = 6, day = 10\<rparr> + 7
   \<and> toordinal \<lparr>year = 2024, month = 6, day = 10\<rparr> + 7 \<le> MAXORDINAL
   \<and> (\<exists>msg. fst (execute (\<lambda>e. []) ShowBirthdays \<lparr>year = 2024, month = 6, day = 10\<rparr> []
                 \<lparr>book = [], pickled = None\<rparr>) = Inr msg)"
proof -
  have o: "toordinal \<lparr>year = 2024, month = 6, day = 10\<rparr> = 739047"
    by (simp add: toordinal_def ymd2ord_def days_before_year_def days_before_month_def
        DAYS_BEFORE_MONTH_def is_leap_def)
  have h1: "0 < toordinal \<lparr>year = 2024, month = 6, day = 10\<rparr> + 7" by (simp add: o)
  have h2: "toordinal \<lparr>year = 2024, month = 6, day = 10\<rparr> + 7 \<le> MAXORDINAL"
    by (simp add: o MAXORDINAL_def)
  from execute_returns_message [OF h1 h2, of "\<lambda>e. []" ShowBirthdays "[]"
      "\<lparr>book = [], pickled = None\<rparr>"] h1 h2
  show ?thesis by blast
qed

section \<open>Upcoming birthdays\<close>

lemma upcoming_loop_result:
  "upcoming_loop today days rs acc = Inr out \<Longrightarrow> out = acc @ filter (in_window today days) rs"
proof (induction rs arbitrary: acc)
  case Nil
  then show ?case by simp
next
  case (Cons r rs)
  show ?case
  proof (cases "birthday r")
    case None
    with Cons.prems have "upcoming_loop today days rs acc = Inr out" by simp
    then have "out = acc @ filter (in_window today days) rs" by (rule Cons.IH)
    moreover from None have "\<not> in_window today days r" by (simp add: in_window_def)
    ultimately show ?thesis by simp
  next
    case (Some b)
    show ?thesis
    proof (cases "string_to_date (field_value b)")
      case (Inl e)
      with Some Cons.prems show ?thesis by simp
    next
      case parsed: (Inr bd)
      show ?thesis
      proof (cases "date_replace_year bd (year today)")
        case (Inl e)
        with Some parsed Cons.prems show ?thesis by simp
      next
        case anchored: (Inr a)
        show ?thesis
        proof (cases "date_le today a")
          case False
          with Some parsed anchored Cons.prems
          have "upcoming_loop today days rs acc = Inr out" by simp
          then have "out = acc @ filter (in_window today days) rs" by (rule Cons.IH)
          moreover from Some parsed anchored False have "\<not> in_window today days r"
            by (simp add: in_window_def)
          ultimately show ?thesis by simp
        next
          case True
          show ?thesis
          proof (cases "date_add_days today days")
            case (Inl e)
            with Some parsed anchored True Cons.prems show ?thesis by simp
          next
            case lim: (Inr limit)
            show ?thesis
            proof (cases "date_le a limit")
              case inside: True
              with Some parsed anchored True lim Cons.prems
              have "upcoming_loop today days rs (acc @ [r]) = Inr out" by simp
              then have "out = (acc @ [r]) @ filter (in_window today days) rs" by (rule Cons.IH)
              moreover from Some parsed anchored True lim inside have "in_window today days r"
                by (simp add: in_window_def)
              ultimately show ?thesis by simp
            next
              case outside: False
              with Some parsed anchored True lim Cons.prems
              have "upcoming_loop today days rs acc = Inr out" by simp
              then have "out = acc @ filter (in_window today days) rs" by (rule Cons.IH)
              moreover from Some parsed anchored True lim outside
              have "\<not> in_window today days r" by (simp add: in_window_def)
              ultimately show ?thesis by simp
            qed
          qed
        qed
      qed
    qed
  qed
qed

lemma upcoming_loop_total:
  assumes "\<forall>r\<in>set rs. \<forall>b. birthday r = Some b \<longrightarrow>
             (\<exists>bd a. string_to_date (field_value b) = Inr bd
                     \<and> date_replace_year bd (year today) = Inr a)"
    and "date_add_days today days = Inr limit"
  shows "\<exists>out. upcoming_loop today days rs acc = Inr out"
  using assms
proof (induction rs arbitrary: acc)
  case Nil
  then show ?case by simp
next
  case (Cons r rs)
  from Cons.prems have rest: "\<And>acc'. \<exists>out. upcoming_loop today days rs acc' = Inr out"
    using Cons.IH by simp
  show ?case
  proof (cases "birthday r")
    case None
    with rest show ?thesis by simp
  next
    case (Some b)
    with Cons.prems(1) obtain bd a where
      "string_to_date (field_value b) = Inr bd" "date_replace_year bd (year today) = Inr a"
      by auto
    with Some Cons.prems(2) rest show ?thesis by simp
  qed
qed

lemma parse_12_06_1990: "string_to_date ''12.06.1990'' = Inr \<lparr>year = 1990, month = 6, day = 12\<rparr>"
  by code_simp

lemma parse_20_06_1990: "string_to_date ''20.06.1990'' = Inr \<lparr>year = 1990, month = 6, day = 20\<rparr>"
  by code_simp

lemma parse_05_06_1990: "string_to_date ''05.06.1990'' = Inr \<lparr>year = 1990, month = 6, day = 5\<rparr>"
  by code_simp

lemma parse_02_01_1990: "string_to_date ''02.01.1990'' = Inr \<lparr>year = 1990, month = 1, day = 2\<rparr>"
  by code_simp

lemma week_after_10_06_2024:
  "date_add_days \<lparr>year = 2024, month = 6, day = 10\<rparr> 7 = Inr \<lparr>year = 2024, month = 6, day = 17\<rparr>"
  by code_simp

lemma week_after_29_12_2024:
  "date_add_days \<lparr>year = 2024, month = 12, day = 29\<rparr> 7 = Inr \<lparr>year = 2025, month = 1, day = 5\<rparr>"
  by code_simp

lemma anchor_12: "date_replace_year \<lparr>year = 1990, month = 6, day = 12\<rparr> 2024
   = Inr \<lparr>year = 2024, month = 6, day = 12\<rparr>"
  by code_simp

lemma anchor_20: "date_replace_year \<lparr>year = 1990, month = 6, day = 20\<rparr> 2024
   = Inr \<lparr>year = 2024, month = 6, day = 20\<rparr>"
  by code_simp

lemma anchor_05: "date_replace_year \<lparr>year = 1990, month = 6, day = 5\<rparr> 2024
   = Inr \<lparr>year = 2024, month = 6, day = 5\<rparr>"
  by code_simp


text \<open>
  Claim C3 says that every record whose birthday, moved to today's year, lies in the
  window is included. The loop moves every stored birthday to today's year, and a
  birthday of 29 February cannot be moved to a year that is not a leap year: on
  10.06.2023, with Ann born on 12.06.1990 and Bob on 29.02.1992 (a birthday the
  constructor accepts), Ann's day 12.06.2023 lies between today and 17.06.2023, and the
  query raises on Bob's record and returns no list at all.
\<close>

theorem upcoming_birthdays_leap_day_counterexample:
  "Birthday_init ''29.02.1992'' = Inr (Field ''29.02.1992'')
   \<and> string_to_date ''12.06.1990'' = Inr \<lparr>year = 1990, month = 6, day = 12\<rparr>
   \<and> date_replace_year \<lparr>year = 1990, month = 6, day = 12\<rparr> 2023
         = Inr \<lparr>year = 2023, month = 6, day = 12\<rparr>
   \<and> date_add_days \<lparr>year = 2023, month = 6, day = 10\<rparr> 7
         = Inr \<lparr>year = 2023, month = 6, day = 17\<rparr>
   \<and> date_le \<lparr>year = 2023, month = 6, day = 10\<rparr> \<lparr>year = 2023, month = 6, day = 12\<rparr>
   \<and> date_le \<lparr>year = 2023, month = 6, day = 12\<rparr> \<lparr>year = 2023, month = 6, day = 17\<rparr>
   \<and> get_upcoming_birthdays \<lparr>year = 2023, month = 6, day = 10\<rparr> 7
         [(''Ann'', \<lparr>name = Field ''Ann'', phone = None, birthday = Some (Field ''12.06.1990'')\<rparr>),
          (''Bob'', \<lparr>name = Field ''Bob'', phone = None, birthday = Some (Field ''29.02.1992'')\<rparr>)]
         = Inl (ValueError_lib (Date_out_of_range 2023 2 29))"
  by code_simp

text \<open>
  Claim C3, amended: when every stored birthday of the book parses and can be moved to
  today's year, and \<open>today + days\<close> exists, the query returns a list of records of the
  book, all with a birthday, and a record with a birthday is in the list if and only if
  its birthday moved to today's year lies between today and today + days, both ends
  included. The witness is the example of the claim: on 10.06.2024 with a window of 7
  days, 12.06.1990 is returned, 20.06.1990 and 05.06.1990 are not.
\<close>

theorem upcoming_birthdays_window:
  assumes anchored: "\<forall>r\<in>set (dict_values bk). \<forall>b. birthday r = Some b \<longrightarrow>
             (\<exists>bd a. string_to_date (field_value b) = Inr bd
                     \<and> date_replace_year bd (year today) = Inr a)"
    and limit: "date_add_days today days = Inr limit"
  shows "\<exists>rs. get_upcoming_birthdays today days bk = Inr rs
           \<and> set rs \<subseteq> set (dict_values bk)
           \<and> (\<forall>r\<in>set rs. birthday r \<noteq> None)
           \<and> (\<forall>r\<in>set (dict_values bk). \<forall>b bd a.
                 birthday r = Some b \<longrightarrow> string_to_date (field_value b) = Inr bd \<longrightarrow>
                 date_replace_year bd (year today) = Inr a \<longrightarrow>
                 (r \<in> set rs \<longleftrightarrow> date_le today a \<and> date_le a limit))"
proof -
  from upcoming_loop_total [OF anchored limit]
  obtain rs where ret: "upcoming_loop today days (dict_values bk) [] = Inr rs" by blast
  from upcoming_loop_result [OF ret]
  have rs: "rs = filter (in_window today days) (dict_values bk)" by simp
  have sub: "set rs \<subseteq> set (dict_values bk)" by (simp add: rs)
  have has: "\<forall>r\<in>set rs. birthday r \<noteq> None"
    by (auto simp: rs in_window_def split: option.splits)
  have win: "\<forall>r\<in>set (dict_values bk). \<forall>b bd a.
                 birthday r = Some b \<longrightarrow> string_to_date (field_value b) = Inr bd \<longrightarrow>
                 date_replace_year bd (year today) = Inr a \<longrightarrow>
                 (r \<in> set rs \<longleftrightarrow> date_le today a \<and> date_le a limit)"
  proof (intro ballI allI impI)
    fix r b bd a
    assume "r \<in> set (dict_values bk)" and "birthday r = Some b"
      and "string_to_date (field_value b) = Inr bd"
      and "date_replace_year bd (year today) = Inr a"
    then show "r \<in> set rs \<longleftrightarrow> date_le today a \<and> date_le a limit"
      using limit by (simp add: rs in_window_def)
  qed
  have "get_upcoming_birthdays today days bk = Inr rs"
    using ret by (simp add: get_upcoming_birthdays_def)
  moreover note sub has win
  ultimately show ?thesis by (intro exI [of _ rs] conjI)
qed

theorem upcoming_birthdays_window_witness:
  "date_add_days \<lparr>year = 2024, month = 6, day = 10\<rparr> 7 = Inr \<lparr>year = 2024, month = 6, day = 17\<rparr>
   \<and> (\<exists>rs. get_upcoming_birthdays \<lparr>year = 2024, month = 6, day = 10\<rparr> 7
          [(''Ann'', \<lparr>name = Field ''Ann'', phone = None, birthday = Some (Field ''12.06.1990'')\<rparr>),
           (''Bob'', \<lparr>name = Field ''Bob'', phone = None, birthday = Some (Field ''20.06.1990'')\<rparr>),
           (''Cid'', \<lparr>name = Field ''Cid'', phone = None, birthday = Some (Field ''05.06.1990'')\<rparr>)]
          = Inr rs
        \<and> \<lparr>name = Field ''Ann'', phone = None, birthday = Some (Field ''12.06.1990'')\<rparr> \<in> set rs
        \<and> \<lparr>name = Field ''Bob'', phone = None, birthday = Some (Field ''20.06.1990'')\<rparr> \<notin> set rs
        \<and> \<lparr>name = Field ''Cid'', phone = None, birthday = Some (Field ''05.06.1990'')\<rparr> \<notin> set rs)"
proof -
  let ?today = "\<lparr>year = 2024, month = 6, day = 10\<rparr>"
  let ?limit = "\<lparr>year = 2024, month = 6, day = 17\<rparr>"
  let ?a = "\<lparr>name = Field ''Ann'', phone = None, birthday = Some (Field ''12.06.1990'')\<rparr>"
  let ?b = "\<lparr>name = Field ''Bob'', phone = None, birthday = Some (Field ''20.06.1990'')\<rparr>"
  let ?c = "\<lparr>name = Field ''Cid'', phone = None, birthday = Some (Field ''05.06.1990'')\<rparr>"
  let ?bk = "[(''Ann'', ?a), (''Bob'', ?b), (''Cid'', ?c)]"
  have vals: "dict_values ?bk = [?a, ?b, ?c]" by (simp add: dict_values_def)
  have anchored: "\<forall>r\<in>set (dict_values ?bk). \<forall>b. birthday r = Some b \<longrightarrow>
             (\<exists>bd a. string_to_date (field_value b) = Inr bd
                     \<and> date_replace_year bd (year ?today) = Inr a)"
    by (simp add: vals parse_12_06_1990 parse_20_06_1990 parse_05_06_1990
        anchor_12 anchor_20 anchor_05)
  note limit = week_after_10_06_2024
  from upcoming_birthdays_window [OF anchored limit]
  obtain rs where big: "get_upcoming_birthdays ?today 7 ?bk = Inr rs
           \<and> set rs \<subseteq> set (dict_values ?bk)
           \<and> (\<forall>r\<in>set rs. birthday r \<noteq> None)
           \<and> (\<forall>r\<in>set (dict_values ?bk). \<forall>b bd a.
                 birthday r = Some b \<longrightarrow> string_to_date (field_value b) = Inr bd \<longrightarrow>
                 date_replace_year bd (year ?today) = Inr a \<longrightarrow>
                 (r \<in> set rs \<longleftrightarrow> date_le ?today a \<and> date_le a ?limit))"
    by (rule exE)
  from big have ret: "get_upcoming_birthdays ?today 7 ?bk = Inr rs" by (rule conjunct1)
  from big [THEN conjunct2, THEN conjunct2, THEN conjunct2]
  have win: "\<forall>r\<in>set (dict_values ?bk). \<forall>b bd a.
                 birthday r = Some b \<longrightarrow> string_to_date (field_value b) = Inr bd \<longrightarrow>
                 date_replace_year bd (year ?today) = Inr a \<longrightarrow>
                 (r \<in> set rs \<longleftrightarrow> date_le ?today a \<and> date_le a ?limit)" .
  have "?a \<in> set rs \<longleftrightarrow> date_le ?today \<lparr>year = 2024, month = 6, day = 12\<rparr>
          \<and> date_le \<lparr>year = 2024, month = 6, day = 12\<rparr> ?limit"
    using win [rule_format, of ?a "Field ''12.06.1990''" "\<lparr>year = 1990, month = 6, day = 12\<rparr>"
        "\<lparr>year = 2024, month = 6, day = 12\<rparr>"]
    by (simp add: vals parse_12_06_1990 anchor_12)
  then have a: "?a \<in> set rs" by (simp add: date_le_def)
  have "?b \<in> set rs \<longleftrightarrow> date_le ?today \<lparr>year = 2024, month = 6, day = 20\<rparr>
          \<and> date_le \<lparr>year = 2024, month = 6, day = 20\<rparr> ?limit"
    using win [rule_format, of ?b "Field ''20.06.1990''" "\<lparr>year = 1990, month = 6, day = 20\<rparr>"
        "\<lparr>year = 2024, month = 6, day = 20\<rparr>"]
    by (simp add: vals parse_20_06_1990 anchor_20)
  then have b: "?b \<notin> set rs" by (simp add: date_le_def)
  have "?c \<in> set rs \<longleftrightarrow> date_le ?today \<lparr>year = 2024, month = 6, day = 5\<rparr>
          \<and> date_le \<lparr>year = 2024, month = 6, day = 5\<rparr> ?limit"
    using win [rule_format, of ?c "Field ''05.06.1990''" "\<lparr>year = 1990, month = 6, day = 5\<rparr>"
        "\<lparr>year = 2024, month = 6, day = 5\<rparr>"]
    by (simp add: vals parse_05_06_1990 anchor_05)
  then have c: "?c \<notin> set rs" by (simp add: date_le_def)
  show ?thesis
    by (rule conjI [OF limit]) (rule exI [of _ rs], intro conjI ret a b c)
qed

text \<open>
  Claim C4: a record whose birthday falls, by month and day, before today's month and day
  is never in the list the query returns, whatever the window, because the birthday is
  only ever moved to today's year. The witness is the example of the claim: on 29.12.2024
  the window of 7 days ends on 05.01.2025 and 02.01.2025 lies inside it, and the record
  born on 02.01.1990 is not returned.
\<close>

theorem upcoming_birthdays_skip_passed:
  assumes bday: "birthday r = Some b"
    and parsed: "string_to_date (field_value b) = Inr bd"
    and passed: "month bd < month today \<or> (month bd = month today \<and> day bd < day today)"
  shows "\<forall>rs. get_upcoming_birthdays today days bk = Inr rs \<longrightarrow> r \<notin> set rs"
proof (intro allI impI)
  fix rs
  assume "get_upcoming_birthdays today days bk = Inr rs"
  then have rs: "rs = filter (in_window today days) (dict_values bk)"
    using upcoming_loop_result [of today days "dict_values bk" "[]" rs]
    by (simp add: get_upcoming_birthdays_def)
  have "\<not> in_window today days r"
  proof (cases "date_replace_year bd (year today)")
    case (Inl e)
    with bday parsed show ?thesis by (simp add: in_window_def)
  next
    case (Inr a)
    have a: "a = \<lparr>year = year today, month = month bd, day = day bd\<rparr>"
      using Inr
      by (cases "check_date_fields (year today) (month bd) (day bd)")
         (simp_all add: date_replace_year_def date_new_def)
    have ya: "year a = year today" and ma: "month a = month bd" and da: "day a = day bd"
      by (simp_all add: a)
    have "\<not> date_le today a"
      unfolding date_le_def ya ma da using passed by arith
    with bday parsed Inr show ?thesis by (simp add: in_window_def)
  qed
  then show "r \<notin> set rs" by (simp add: rs)
qed

theorem upcoming_birthdays_skip_passed_witness:
  "string_to_date ''02.01.1990'' = Inr \<lparr>year = 1990, month = 1, day = 2\<rparr>
   \<and> date_add_days \<lparr>year = 2024, month = 12, day = 29\<rparr> 7 = Inr \<lparr>year = 2025, month = 1, day = 5\<rparr>
   \<and> date_le \<lparr>year = 2024, month = 12, day = 29\<rparr> \<lparr>year = 2025, month = 1, day = 2\<rparr>
   \<and> date_le \<lparr>year = 2025, month = 1, day = 2\<rparr> \<lparr>year = 2025, month = 1, day = 5\<rparr>
   \<and> (\<exists>rs. get_upcoming_birthdays \<lparr>year = 2024, month = 12, day = 29\<rparr> 7
          [(''Ann'', \<lparr>name = Field ''Ann'', phone = None, birthday = Some (Field ''02.01.1990'')\<rparr>)]
          = Inr rs
        \<and> \<lparr>name = Field ''Ann'', phone = None, birthday = Some (Field ''02.01.1990'')\<rparr> \<notin> set rs)"
proof -
  let ?today = "\<lparr>year = 2024, month = 12, day = 29\<rparr>"
  let ?r = "\<lparr>name = Field ''Ann'', phone = None, birthday = Some (Field ''02.01.1990'')\<rparr>"
  let ?bk = "[(''Ann'', ?r)]"
  have bday: "birthday ?r = Some (Field ''02.01.1990'')" by simp
  have parsed: "string_to_date (field_value (Field ''02.01.1990''))
      = Inr \<lparr>year = 1990, month = 1, day = 2\<rparr>"
    by (simp add: parse_02_01_1990)
  have passed: "month \<lparr>year = 1990, month = 1, day = 2\<rparr> < month ?today
      \<or> (month \<lparr>year = 1990, month = 1, day = 2\<rparr> = month ?today
          \<and> day \<lparr>year = 1990, month = 1, day = 2\<rparr> < day ?today)"
    by simp
  have ret: "get_upcoming_birthdays ?today 7 ?bk = Inr []" by code_simp
  from upcoming_birthdays_skip_passed [OF bday parsed passed, of 7 ?bk] ret
  have out: "?r \<notin> set []" by (simp only: simp_thms)
  have le1: "date_le ?today \<lparr>year = 2025, month = 1, day = 2\<rparr>" by (simp add: date_le_def)
  have le2: "date_le \<lparr>year = 2025, month = 1, day = 2\<rparr> \<lparr>year = 2025, month = 1, day = 5\<rparr>"
    by (simp add: date_le_def)
  show ?thesis
    by (intro conjI parse_02_01_1990 week_after_29_12_2024 le1 le2)
       (rule exI [of _ "[]"], intro conjI ret out)
qed

section \<open>Birthday texts\<close>

lemma re_two_set:
  "(d, r) \<in> set (re_two c1 c2 s) \<longleftrightarrow> d \<in> set [[a, b]. a \<leftarrow> c1, b \<leftarrow> c2] \<and> s = d @ r"
  by (cases s; cases "tl s") (auto simp: re_two_def)

lemma re_one_set:
  "(d, r) \<in> set (re_one c1 s) \<longleftrightarrow> d \<in> set [[a]. a \<leftarrow> c1] \<and> s = d @ r"
  by (cases s) (auto simp: re_one_def)

lemma re_dot_set: "r \<in> set (re_dot s) \<longleftrightarrow> s = ''.'' @ r"
  by (cases s) (auto simp: re_dot_def)

lemma group_Y_set:
  "(y, r) \<in> set (group_Y s) \<longleftrightarrow>
     length y = 4 \<and> (\<forall>c\<in>set y. c \<in> set ''0123456789'') \<and> s = y @ r"
proof -
  define D where "D = set ''0123456789''"
  have gy: "group_Y s =
     (case s of a # b # c # d # r \<Rightarrow>
        if a \<in> D \<and> b \<in> D \<and> c \<in> D \<and> d \<in> D then [([a, b, c, d], r)] else []
      | _ \<Rightarrow> [])"
    unfolding group_Y_def D_def by (simp only: list.pred_inject simp_thms)
  have "(y, r) \<in> set (group_Y s) \<longleftrightarrow> length y = 4 \<and> (\<forall>c\<in>set y. c \<in> D) \<and> s = y @ r"
  proof
    assume "(y, r) \<in> set (group_Y s)"
    then show "length y = 4 \<and> (\<forall>c\<in>set y. c \<in> D) \<and> s = y @ r"
      unfolding gy by (auto split: list.splits if_splits)
  next
    assume a: "length y = 4 \<and> (\<forall>c\<in>set y. c \<in> D) \<and> s = y @ r"
    then obtain a b c d where y: "y = [a, b, c, d]"
      by (cases y; cases "tl y"; cases "tl (tl y)"; cases "tl (tl (tl y))") auto
    with a show "(y, r) \<in> set (group_Y s)"
      unfolding gy by simp
  qed
  then show ?thesis unfolding D_def .
qed

lemma day_texts_alt:
  "set day_texts
     = set ([[a, b]. a \<leftarrow> ''3'', b \<leftarrow> ''01''] @ [[a, b]. a \<leftarrow> ''12'', b \<leftarrow> ''0123456789'']
         @ [[a, b]. a \<leftarrow> ''0'', b \<leftarrow> ''123456789''] @ [[a]. a \<leftarrow> ''123456789'']
         @ [[a, b]. a \<leftarrow> '' '', b \<leftarrow> ''123456789''])"
  by code_simp

lemma month_texts_alt:
  "set month_texts
     = set ([[a, b]. a \<leftarrow> ''1'', b \<leftarrow> ''012''] @ [[a, b]. a \<leftarrow> ''0'', b \<leftarrow> ''123456789'']
         @ [[a]. a \<leftarrow> ''123456789''])"
  by code_simp

lemma group_d_set: "(d, r) \<in> set (group_d s) \<longleftrightarrow> d \<in> set day_texts \<and> s = d @ r"
  unfolding group_d_def day_texts_alt set_append Un_iff re_two_set re_one_set by blast

lemma group_m_set: "(m, r) \<in> set (group_m s) \<longleftrightarrow> m \<in> set month_texts \<and> s = m @ r"
  unfolding group_m_def month_texts_alt set_append Un_iff re_two_set re_one_set by blast

lemma format_regex_match_chain:
  "(d, m, y, r) \<in> set (format_regex_match s) \<longleftrightarrow>
     (\<exists>r1 r2 r3 r4. (d, r1) \<in> set (group_d s) \<and> r2 \<in> set (re_dot r1)
        \<and> (m, r3) \<in> set (group_m r2) \<and> r4 \<in> set (re_dot r3) \<and> (y, r) \<in> set (group_Y r4))"
  unfolding format_regex_match_def by fastforce

lemma format_regex_match_set:
  "(d, m, y, r) \<in> set (format_regex_match s) \<longleftrightarrow>
     d \<in> set day_texts \<and> m \<in> set month_texts
     \<and> (length y = 4 \<and> (\<forall>c\<in>set y. c \<in> set ''0123456789''))
     \<and> s = d @ ''.'' @ m @ ''.'' @ y @ r"
proof -
  define yt where "yt = (\<lambda>y :: string. length y = 4 \<and> (\<forall>c\<in>set y. c \<in> set ''0123456789''))"
  have gy: "(y, r) \<in> set (group_Y s) \<longleftrightarrow> yt y \<and> s = y @ r" for y r s
    unfolding yt_def by (simp only: group_Y_set conj_assoc)
  have "(d, m, y, r) \<in> set (format_regex_match s) \<longleftrightarrow>
     d \<in> set day_texts \<and> m \<in> set month_texts \<and> yt y \<and> s = d @ ''.'' @ m @ ''.'' @ y @ r"
    unfolding format_regex_match_chain group_d_set group_m_set re_dot_set gy
    by auto
  then show ?thesis unfolding yt_def .
qed

lemma day_texts_no_dot: "d \<in> set day_texts \<Longrightarrow> CHR ''.'' \<notin> set d"
proof -
  have "list_all (\<lambda>d. CHR ''.'' \<notin> set d) day_texts" by code_simp
  then show "d \<in> set day_texts \<Longrightarrow> CHR ''.'' \<notin> set d" by (simp add: list_all_iff)
qed

lemma month_texts_no_dot: "m \<in> set month_texts \<Longrightarrow> CHR ''.'' \<notin> set m"
proof -
  have "list_all (\<lambda>d. CHR ''.'' \<notin> set d) month_texts" by code_simp
  then show "m \<in> set month_texts \<Longrightarrow> CHR ''.'' \<notin> set m" by (simp add: list_all_iff)
qed

lemma takeWhile_up_to: "c \<notin> set d \<Longrightarrow> takeWhile (\<lambda>z. z \<noteq> c) (d @ c # x) = d"
  by (induction d) auto

lemma split_at_char:
  assumes "c \<notin> set d" and "c \<notin> set d'" and "d @ c # x = d' @ c # x'"
  shows "d = d' \<and> x = x'"
proof -
  have "d = takeWhile (\<lambda>z. z \<noteq> c) (d @ c # x)" using assms(1) by (simp add: takeWhile_up_to)
  also have "\<dots> = takeWhile (\<lambda>z. z \<noteq> c) (d' @ c # x')" by (simp only: assms(3))
  also have "\<dots> = d'" using assms(2) by (simp add: takeWhile_up_to)
  finally have "d = d'" .
  with assms(3) show ?thesis by simp
qed

lemma format_regex_match_unique:
  assumes "(d, m, y, r) \<in> set (format_regex_match s)"
    and "(d', m', y', r') \<in> set (format_regex_match s)"
  shows "d = d' \<and> m = m' \<and> y = y' \<and> r = r'"
proof -
  have A: "d \<in> set day_texts \<and> m \<in> set month_texts
     \<and> (length y = 4 \<and> (\<forall>c\<in>set y. c \<in> set ''0123456789''))
     \<and> s = d @ ''.'' @ m @ ''.'' @ y @ r"
    using assms(1) unfolding format_regex_match_set .
  have B: "d' \<in> set day_texts \<and> m' \<in> set month_texts
     \<and> (length y' = 4 \<and> (\<forall>c\<in>set y'. c \<in> set ''0123456789''))
     \<and> s = d' @ ''.'' @ m' @ ''.'' @ y' @ r'"
    using assms(2) unfolding format_regex_match_set .
  note d1 = A [THEN conjunct1] and m1 = A [THEN conjunct2, THEN conjunct1]
    and y1 = A [THEN conjunct2, THEN conjunct2, THEN conjunct1, THEN conjunct1]
    and s1 = A [THEN conjunct2, THEN conjunct2, THEN conjunct2]
  note d2 = B [THEN conjunct1] and m2 = B [THEN conjunct2, THEN conjunct1]
    and y2 = B [THEN conjunct2, THEN conjunct2, THEN conjunct1, THEN conjunct1]
    and s2 = B [THEN conjunct2, THEN conjunct2, THEN conjunct2]
  from s1 [symmetric] s2
  have "d @ ''.'' @ m @ ''.'' @ y @ r = d' @ ''.'' @ m' @ ''.'' @ y' @ r'" by (rule trans)
  then have e: "d @ CHR ''.'' # (m @ CHR ''.'' # (y @ r))
      = d' @ CHR ''.'' # (m' @ CHR ''.'' # (y' @ r'))"
    by (simp only: append_Cons append_Nil)
  note step1 = split_at_char [OF day_texts_no_dot [OF d1] day_texts_no_dot [OF d2] e]
  note step2 = split_at_char [OF month_texts_no_dot [OF m1] month_texts_no_dot [OF m2]
      step1 [THEN conjunct2]]
  have "length y = length y'" by (simp only: y1 y2)
  then have "length y = length y' \<or> length r = length r'" by (rule disjI1)
  from append_eq_append_conv [OF this] step2 [THEN conjunct2]
  have "y = y' \<and> r = r'" by (rule iffD1)
  with step1 [THEN conjunct1] step2 [THEN conjunct1] show ?thesis by (intro conjI) simp_all
qed

lemma strptime_Inr_iff:
  "strptime s = Inr dt \<longleftrightarrow>
     (\<exists>d m y. (d, m, y, []) \<in> set (format_regex_match s)
              \<and> date_new (py_int y) (py_int m) (py_int d) = Inr dt)"
proof
  assume ok: "strptime s = Inr dt"
  show "\<exists>d m y. (d, m, y, []) \<in> set (format_regex_match s)
              \<and> date_new (py_int y) (py_int m) (py_int d) = Inr dt"
  proof (cases "format_regex_match s")
    case Nil
    with ok show ?thesis by (simp add: strptime_def)
  next
    case (Cons x xs)
    obtain d m y r where x: "x = (d, m, y, r)" by (cases x) auto
    from ok Cons x have "r = []" and "date_new (py_int y) (py_int m) (py_int d) = Inr dt"
      by (auto simp: strptime_def split: if_splits)
    moreover from Cons x have "(d, m, y, r) \<in> set (format_regex_match s)" by simp
    ultimately show ?thesis by blast
  qed
next
  assume "\<exists>d m y. (d, m, y, []) \<in> set (format_regex_match s)
              \<and> date_new (py_int y) (py_int m) (py_int d) = Inr dt"
  then obtain d m y where mem: "(d, m, y, []) \<in> set (format_regex_match s)"
    and dn: "date_new (py_int y) (py_int m) (py_int d) = Inr dt" by blast
  show "strptime s = Inr dt"
  proof (cases "format_regex_match s")
    case Nil
    with mem show ?thesis by simp
  next
    case (Cons x xs)
    obtain d' m' y' r' where x: "x = (d', m', y', r')" by (cases x) auto
    with Cons have "(d', m', y', r') \<in> set (format_regex_match s)" by simp
    from format_regex_match_unique [OF this mem] have "x = (d, m, y, [])" by (simp add: x)
    with Cons dn show ?thesis by (simp add: strptime_def)
  qed
qed

lemma validate_date_iff:
  "validate_date s \<longleftrightarrow>
     (\<exists>d m y. s = d @ ''.'' @ m @ ''.'' @ y \<and> d \<in> set day_texts \<and> m \<in> set month_texts
        \<and> length y = 4 \<and> (\<forall>c\<in>set y. c \<in> set ''0123456789'')
        \<and> check_date_fields (py_int y) (py_int m) (py_int d))"
proof -
  have "validate_date s \<longleftrightarrow> (\<exists>dt. strptime s = Inr dt)"
    by (cases "strptime s") (simp_all add: validate_date_def)
  also have "\<dots> \<longleftrightarrow> (\<exists>d m y. (d, m, y, []) \<in> set (format_regex_match s)
        \<and> check_date_fields (py_int y) (py_int m) (py_int d))"
    unfolding strptime_Inr_iff date_new_def by auto
  also have "\<dots> \<longleftrightarrow> (\<exists>d m y. s = d @ ''.'' @ m @ ''.'' @ y \<and> d \<in> set day_texts
        \<and> m \<in> set month_texts
        \<and> length y = 4 \<and> (\<forall>c\<in>set y. c \<in> set ''0123456789'')
        \<and> check_date_fields (py_int y) (py_int m) (py_int d))"
    unfolding format_regex_match_set by (simp only: append_Nil2 conj_assoc conj_left_commute conj_commute)
  finally show ?thesis .
qed

text \<open>
  Claim C5 says that a birthday is accepted only with a two-digit day and a two-digit
  month. The format \<open>%d.%m.%Y\<close> also takes one digit for each: 1.1.2020, eight
  characters long, is accepted.
\<close>

theorem Birthday_init_single_digits_counterexample:
  "Birthday_init ''1.1.2020'' = Inr (Field ''1.1.2020'') \<and> length ''1.1.2020'' \<noteq> 10"
  by code_simp

lemma if_swap_exn: "(if \<not> P then (A :: exn + Field) else B) = (if P then B else A)"
  by simp

text \<open>
  Claim C5, amended: among the strings of code points up to U+00FF, a birthday is
  accepted if and only if the string is a day text, a dot, a month text, a dot and exactly
  four ASCII digits of year, where the day is 01 to 31 with two digits or a single digit
  1 to 9 (alone or after a blank), the month is 01 to 12 with two digits or a single digit
  1 to 9, and the three numbers are a date of the calendar (year 1 to 9999, day within
  the month of that year); every other such string is rejected with the ValueError
  "Invalid date format. Use DD.MM.YYYY", and so are 31.02.2020, 2020.01.01 and 1-1-2020.
  Beyond U+00FF the library's digit class holds further decimal digits, which this
  statement does not cover.
\<close>

theorem Birthday_init_accepts:
  "Birthday_init s =
     (if \<exists>d m y. s = d @ ''.'' @ m @ ''.'' @ y \<and> d \<in> set day_texts \<and> m \<in> set month_texts
            \<and> length y = 4 \<and> (\<forall>c\<in>set y. c \<in> set ''0123456789'')
            \<and> check_date_fields (py_int y) (py_int m) (py_int d)
      then Inr (Field s) else Inl (ValueError ''Invalid date format. Use DD.MM.YYYY''))
   \<and> Birthday_init ''31.02.2020'' = Inl (ValueError ''Invalid date format. Use DD.MM.YYYY'')
   \<and> Birthday_init ''2020.01.01'' = Inl (ValueError ''Invalid date format. Use DD.MM.YYYY'')
   \<and> Birthday_init ''1-1-2020'' = Inl (ValueError ''Invalid date format. Use DD.MM.YYYY'')"
proof (intro conjI)
  show "Birthday_init s =
     (if \<exists>d m y. s = d @ ''.'' @ m @ ''.'' @ y \<and> d \<in> set day_texts \<and> m \<in> set month_texts
            \<and> length y = 4 \<and> (\<forall>c\<in>set y. c \<in> set ''0123456789'')
            \<and> check_date_fields (py_int y) (py_int m) (py_int d)
      then Inr (Field s) else Inl (ValueError ''Invalid date format. Use DD.MM.YYYY''))"
    unfolding Birthday_init_def validate_date_iff by (rule if_swap_exn)
  show "Birthday_init ''31.02.2020'' = Inl (ValueError ''Invalid date format. Use DD.MM.YYYY'')"
    by code_simp
  show "Birthday_init ''2020.01.01'' = Inl (ValueError ''Invalid date format. Use DD.MM.YYYY'')"
    by code_simp
  show "Birthday_init ''1-1-2020'' = Inl (ValueError ''Invalid date format. Use DD.MM.YYYY'')"
    by code_simp
qed

theorem Birthday_init_accepts_witness:
  "(\<exists>d m y. ''12.06.1990'' = d @ ''.'' @ m @ ''.'' @ y \<and> d \<in> set day_texts
        \<and> m \<in> set month_texts
        \<and> length y = 4 \<and> (\<forall>c\<in>set y. c \<in> set ''0123456789'')
        \<and> check_date_fields (py_int y) (py_int m) (py_int d))
   \<and> Birthday_init ''12.06.1990'' = Inr (Field ''12.06.1990'')"
proof -
  have ex: "\<exists>d m y. ''12.06.1990'' = d @ ''.'' @ m @ ''.'' @ y \<and> d \<in> set day_texts
        \<and> m \<in> set month_texts
        \<and> length y = 4 \<and> (\<forall>c\<in>set y. c \<in> set ''0123456789'')
        \<and> check_date_fields (py_int y) (py_int m) (py_int d)"
  proof (rule exI [of _ "''12''"], rule exI [of _ "''06''"], rule exI [of _ "''1990''"],
      intro conjI)
    show "''12.06.1990'' = ''12'' @ ''.'' @ ''06'' @ ''.'' @ ''1990''" by simp
    show "''12'' \<in> set day_texts" by code_simp
    show "''06'' \<in> set month_texts" by code_simp
    show "length ''1990'' = 4" by simp
    show "\<forall>c\<in>set ''1990''. c \<in> set ''0123456789''" by code_simp
    show "check_date_fields (py_int ''1990'') (py_int ''06'') (py_int ''12'')" by code_simp
  qed
  from Birthday_init_accepts [THEN conjunct1, of "''12.06.1990''"] ex
  have "Birthday_init ''12.06.1990'' = Inr (Field ''12.06.1990'')" by (simp only: if_True)
  with ex show ?thesis by (rule conjI)
qed

end
